theory Spec2Isabelle
  imports Main "HOL-Library.Word" "HOL-Library.Sublist"
begin

section \<open>Data of \<^verbatim>\<open>main.go\<close>\<close>

text \<open>
  The program is one Go file: \<^verbatim>\<open>main\<close> performs a sequential start-up (voice lookup,
  recognition client and stream, codec lookup, configuration message, capture subprocess)
  and then runs six goroutines connected by two unbuffered channels, \<^verbatim>\<open>texts\<close> and
  \<^verbatim>\<open>streams\<close>. Every call into a library or into the outside world (the AWS and Google
  clients, the subprocess, the file system, the clock) is a field of the record \<open>env\<close>:
  the model fixes what the results of those calls are and computes what the program does
  with them.
\<close>

type_synonym err = string

text \<open>An error returned by a reader: \<^verbatim>\<open>io.EOF\<close> or anything else.\<close>

datatype ioerr = EOF | OtherErr err

type_synonym bytes = "8 word list"

text \<open>An \<^verbatim>\<open>io.ReadCloser\<close> handle, as returned in \<^verbatim>\<open>result.AudioStream\<close>.\<close>

type_synonym readcloser = nat

text \<open>\<^verbatim>\<open>type options struct\<close>, lines 24-28. Go's \<^verbatim>\<open>int\<close> is 64 bits wide here.\<close>

record options =
  sampleRate :: "64 word"
  language :: string
  codec :: string

text \<open>\<^verbatim>\<open>polly.Voice\<close>: only the field \<^verbatim>\<open>Id *string\<close> is read.\<close>

record pollyVoice =
  voiceId :: "string option"

text \<open>\<^verbatim>\<open>speechpb.RecognitionConfig\<close>, as filled on lines 76-80.\<close>

record recognitionConfig =
  LanguageCode :: string
  Encoding :: "32 word"
  SampleRate :: "32 word"

text \<open>\<^verbatim>\<open>polly.SynthesizeSpeechInput\<close>, as filled on lines 218-224.\<close>

record synthesizeSpeechInput =
  OutputFormat :: string
  SynthSampleRate :: string
  Text :: string
  TextType :: string
  VoiceId :: string

text \<open>
  One \<^verbatim>\<open>StreamingRecognizeResponse\<close>: an optional error status and the results, each
  with its alternatives' transcripts.
\<close>

record result =
  Alternatives :: "string list"

record response =
  Error :: "err option"
  Results :: "result list"

text \<open>
  What \<^verbatim>\<open>time.Now()\<close> returns, broken down in its location, as \<^verbatim>\<open>Format\<close> reads it.
  \<open>weekday\<close> counts from Sunday = 0 and \<open>month\<close> from January = 1.
\<close>

record gotime =
  year :: nat
  month :: nat
  day :: nat
  hour :: nat
  minute :: nat
  second :: nat
  nanosecond :: nat
  weekday :: nat
  zone :: string

text \<open>How the process ends: \<^verbatim>\<open>log.Fatal\<close> (exit status 1), a run-time panic, or a return of \<^verbatim>\<open>main\<close>.\<close>

datatype exit = Fatal string | PanicIndexOutOfRange | PanicNilDereference | Clean

text \<open>A deferred call of the sink goroutine (lines 206 and 208).\<close>

datatype deferred_call = DeferFileClose string | DeferStreamClose readcloser

text \<open>The observable actions of the program, in the order in which they happen.\<close>

datatype event =
    DescribeVoices string
  | NewClient
  | StreamingRecognize
  | SendConfig recognitionConfig "err option"
  | Log string
  | LogResult result
  | StdoutPipe
  | CmdStart "64 word" string
  | Print string
  | Signal
  | Read nat
  | SendAudio bytes "err option"
  | CloseSend
  | Recv nat
  | TextsSend string
  | CloseTexts
  | Wait
  | Say synthesizeSpeechInput "err + readcloser"
  | StreamsSend readcloser
  | CloseStreams
  | Create string "err option"
  | Copy string readcloser "err option"
  | FileClose string
  | StreamClose readcloser
  | OutClose

text \<open>
  The results of the external calls. Calls made repeatedly take the number of earlier
  calls of the same kind, so that a result may change from call to call.
  \<open>audioEncoding_value\<close> is the table \<^verbatim>\<open>speechpb.RecognitionConfig_AudioEncoding_value\<close>
  of the generated protocol package, which is not part of this repository.
  \<open>mapUnicodeToUpper\<close> is what \<^verbatim>\<open>strings.ToUpper\<close> returns for a string with a byte above
  0x7F, where it maps every rune by the case tables of package \<^verbatim>\<open>unicode\<close>.
  \<open>stdinReturns\<close> says whether \<^verbatim>\<open>ReadBytes\<close> on the terminal ever returns (a line
  is entered, or the terminal is closed). \<open>readRes\<close> gives, for each \<^verbatim>\<open>out.Read\<close>, the
  bytes \<^verbatim>\<open>buf[:n]\<close> and the error; \<open>recvRes\<close> the answers of \<^verbatim>\<open>stream.Recv\<close>, that
  is the utterances in the order in which the backend emits them. Every call returns:
  the only places where a goroutine can wait for ever are the two channels, the terminal
  and \<^verbatim>\<open>wg.Wait()\<close>.
\<close>

record env =
  describeVoices :: "string \<Rightarrow> err + pollyVoice list"
  newClient :: "err option"
  streamingRecognize :: "err option"
  mapUnicodeToUpper :: "string \<Rightarrow> string"
  audioEncoding_value :: "string \<rightharpoonup> 32 word"
  sendConfig :: "err option"
  stdoutPipe :: "err option"
  cmdStart :: "err option"
  stdinReturns :: bool
  signalRes :: "err option"
  readRes :: "nat \<Rightarrow> bytes \<times> ioerr option"
  sendRes :: "nat \<Rightarrow> err option"
  closeSendRes :: "err option"
  recvRes :: "nat \<Rightarrow> ioerr + response"
  waitRes :: "err option"
  synthesizeSpeech :: "nat \<Rightarrow> synthesizeSpeechInput \<Rightarrow> err + readcloser"
  now :: "nat \<Rightarrow> gotime"
  createRes :: "nat \<Rightarrow> string \<Rightarrow> err option"
  copyRes :: "nat \<Rightarrow> err option"

section \<open>Library functions the program calls\<close>

text \<open>
  \<^verbatim>\<open>strings.ToUpper\<close>, line 67. On a string of ASCII bytes only, the letters a-z move
  to A-Z and every other byte stays. On any other string the runes are mapped by
  \<^verbatim>\<open>unicode.ToUpper\<close>, whose tables are not part of this repository: that result is
  taken from \<open>env\<close>.
\<close>

definition lowerLetters :: string where
  "lowerLetters = ''abcdefghijklmnopqrstuvwxyz''"

definition upperLetters :: string where
  "upperLetters = ''ABCDEFGHIJKLMNOPQRSTUVWXYZ''"

definition toUpperChar :: "char \<Rightarrow> char" where
  "toUpperChar c = (case map_of (zip lowerLetters upperLetters) c of Some u \<Rightarrow> u | None \<Rightarrow> c)"

definition isASCII :: "string \<Rightarrow> bool" where
  "isASCII s = list_all (\<lambda>c. (of_char c :: nat) < 128) s"

definition ToUpper :: "env \<Rightarrow> string \<Rightarrow> string" where
  "ToUpper env s = (if isASCII s then map toUpperChar s else mapUnicodeToUpper env s)"

text \<open>
  Two ASCII names differ only in the case of their letters when they are equal after
  A-Z are moved to a-z.
\<close>

definition toLowerChar :: "char \<Rightarrow> char" where
  "toLowerChar c = (case map_of (zip upperLetters lowerLetters) c of Some l \<Rightarrow> l | None \<Rightarrow> c)"

definition asciiFold :: "string \<Rightarrow> string" where
  "asciiFold s = map toLowerChar s"

text \<open>Decimal digits, for \<^verbatim>\<open>Format\<close>.\<close>

definition digit :: "nat \<Rightarrow> char" where
  "digit n = char_of (48 + n mod 10)"

fun dec :: "nat \<Rightarrow> string" where
  "dec n = (if n < 10 then [digit n] else dec (n div 10) @ [digit n])"

declare dec.simps [simp del]

definition pad :: "char \<Rightarrow> nat \<Rightarrow> nat \<Rightarrow> string" where
  "pad c w n = replicate (w - length (dec n)) c @ dec n"

definition shortDayNames :: "string list" where
  "shortDayNames = [''Sun'', ''Mon'', ''Tue'', ''Wed'', ''Thu'', ''Fri'', ''Sat'']"

definition shortMonthNames :: "string list" where
  "shortMonthNames = [''Jan'', ''Feb'', ''Mar'', ''Apr'', ''May'', ''Jun'',
                      ''Jul'', ''Aug'', ''Sep'', ''Oct'', ''Nov'', ''Dec'']"

text \<open>
  \<^verbatim>\<open>t.Format(time.UnixDate)\<close>, the layout \<^verbatim>\<open>"Mon Jan _2 15:04:05 MST 2006"\<close>: day name,
  month name, day padded with a space, hour, minute and second padded with zeros, zone
  abbreviation, year. The layout has no field below the second.
\<close>

definition formatUnixDate :: "gotime \<Rightarrow> string" where
  "formatUnixDate t =
     shortDayNames ! (weekday t mod 7) @ '' '' @
     shortMonthNames ! ((month t - 1) mod 12) @ '' '' @
     pad (CHR '' '') 2 (day t) @ '' '' @
     pad (CHR ''0'') 2 (hour t) @ '':'' @
     pad (CHR ''0'') 2 (minute t) @ '':'' @
     pad (CHR ''0'') 2 (second t) @ '' '' @
     zone t @ '' '' @
     pad (CHR ''0'') 4 (year t)"

text \<open>Lines 199-200: the name of the file the sink writes an utterance to.\<close>

definition fileName :: "gotime \<Rightarrow> string" where
  "fileName t = ''./tmp/'' @ formatUnixDate t @ ''.mp3''"

section \<open>Start-up: \<^verbatim>\<open>main\<close>, lines 44-104\<close>

text \<open>Lines 76-80. \<^verbatim>\<open>int32(opts.sampleRate)\<close> keeps the low 32 bits.\<close>

definition configOf :: "options \<Rightarrow> 32 word \<Rightarrow> recognitionConfig" where
  "configOf opts enc =
     \<lparr>LanguageCode = language opts, Encoding = enc, SampleRate = ucast (sampleRate opts)\<rparr>"

text \<open>Line 67: the codec flag, in upper case, looked up in the encoding table.\<close>

definition lookupCodec :: "env \<Rightarrow> string \<Rightarrow> 32 word option" where
  "lookupCodec env name = audioEncoding_value env (ToUpper env name)"

text \<open>
  The start-up returns the events so far and either how the process ended or the voice
  the goroutines will use. Each \<^verbatim>\<open>log.Fatal\<close> ends the process at once.
\<close>

definition startup :: "options \<Rightarrow> env \<Rightarrow> event list \<times> (exit + string)" where
  "startup opts env =
    (let tr1 = [DescribeVoices (language opts)] in
     case describeVoices env (language opts) of
       Inl e \<Rightarrow> (tr1, Inl (Fatal (''Failed to get voices: '' @ e)))
     | Inr vs \<Rightarrow>
    (case vs of
       [] \<Rightarrow> (tr1, Inl PanicIndexOutOfRange)
     | v # _ \<Rightarrow>
    (case voiceId v of
       None \<Rightarrow> (tr1, Inl PanicNilDereference)
     | Some vid \<Rightarrow>
    (let tr2 = tr1 @ [NewClient] in
     case newClient env of
       Some e \<Rightarrow> (tr2, Inl (Fatal (''Failed to create client: '' @ e)))
     | None \<Rightarrow>
    (let tr3 = tr2 @ [StreamingRecognize] in
     case streamingRecognize env of
       Some e \<Rightarrow> (tr3, Inl (Fatal e))
     | None \<Rightarrow>
    (case lookupCodec env (codec opts) of
       None \<Rightarrow> (tr3, Inl (Fatal (''Invalid codec: '' @ codec opts)))
     | Some enc \<Rightarrow>
    (let tr4 = tr3 @ [SendConfig (configOf opts enc) (sendConfig env)] in
     case sendConfig env of
       Some e \<Rightarrow> (tr4, Inl (Fatal e))
     | None \<Rightarrow>
    (let tr5 = tr4 @ [Log ''sent config. now listening on stdin'', StdoutPipe] in
     case stdoutPipe env of
       Some e \<Rightarrow> (tr5, Inl (Fatal e))
     | None \<Rightarrow>
    (let tr6 = tr5 @ [CmdStart (sampleRate opts) (codec opts)] in
     case cmdStart env of
       Some e \<Rightarrow> (tr6, Inl (Fatal (''start: '' @ e)))
     | None \<Rightarrow> (tr6, Inr vid))))))))))"

section \<open>The six goroutines and \<^verbatim>\<open>main\<close>'s wait\<close>

text \<open>
  Each goroutine is a small machine: its control point, and what one step from there does.
  Both channels are unbuffered, so a send and the matching receive are one joint step,
  taken when the sender stands at its send and the receiver at its \<^verbatim>\<open>range\<close>; a send
  with no receiver at the \<^verbatim>\<open>range\<close> has no step.
\<close>

text \<open>Lines 107-115: prompt, read a line from the terminal, signal the subprocess.\<close>

datatype stop_pc = StopPrompt | StopRead | StopSignal | StopDone

text \<open>Lines 118-146: read from the pipe, forward the chunk, close the send side at EOF.\<close>

datatype send_pc = SendRead | SendChunk bytes | SendClose | SendDone

text \<open>
  Lines 149-171: \<open>RecvResults rs\<close> is the outer \<^verbatim>\<open>for\<close> with the results \<open>rs\<close> left,
  \<open>RecvAlts ts rs\<close> the inner \<^verbatim>\<open>for\<close> with the transcripts \<open>ts\<close> left to send.
\<close>

datatype recv_pc = RecvCall | RecvResults "result list" | RecvAlts "string list" "result list"
  | RecvDone

text \<open>Lines 174-180.\<close>

datatype wait_pc = WaitCall | WaitDone

text \<open>Lines 183-193: at the \<^verbatim>\<open>range\<close>, holding a text to synthesize, holding a stream to send.\<close>

datatype bridge_pc = BridgeRange | BridgeSay string | BridgeSend readcloser | BridgeDone

text \<open>Lines 196-211: at the \<^verbatim>\<open>range\<close>, or in the loop body with the stream received.\<close>

datatype sink_pc = SinkRange | SinkItem readcloser | SinkDone

record sys =
  trace :: "event list"
  exited :: "exit option"
  texts_closed :: bool
  streams_closed :: bool
  voice :: string
  pc_stop :: stop_pc
  pc_send :: send_pc
  reads :: nat
  sends :: nat
  pc_recv :: recv_pc
  recvs :: nat
  pc_wait :: wait_pc
  pc_bridge :: bridge_pc
  synths :: nat
  pc_sink :: sink_pc
  sinks :: nat
  deferred :: "deferred_call list"

definition emit :: "event list \<Rightarrow> sys \<Rightarrow> sys" where
  "emit evs s = s\<lparr>trace := trace s @ evs\<rparr>"

text \<open>\<^verbatim>\<open>log.Fatal\<close>, \<^verbatim>\<open>log.Fatalf\<close>: print and \<^verbatim>\<open>os.Exit(1)\<close>; deferred calls do not run.\<close>

definition fatal :: "string \<Rightarrow> sys \<Rightarrow> sys" where
  "fatal msg s = s\<lparr>exited := Some (Fatal msg)\<rparr>"

definition stopStep :: "env \<Rightarrow> sys \<Rightarrow> sys option" where
  "stopStep env s =
    (case pc_stop s of
       StopPrompt \<Rightarrow> Some (emit [Print ''Press 'Enter' to stop''] (s\<lparr>pc_stop := StopRead\<rparr>))
     | StopRead \<Rightarrow> if stdinReturns env then Some (s\<lparr>pc_stop := StopSignal\<rparr>) else None
     | StopSignal \<Rightarrow>
         (case signalRes env of
            Some e \<Rightarrow> Some (fatal e (emit [Signal] s))
          | None \<Rightarrow> Some (emit [Signal] (s\<lparr>pc_stop := StopDone\<rparr>)))
     | StopDone \<Rightarrow> None)"

definition sendStep :: "env \<Rightarrow> sys \<Rightarrow> sys option" where
  "sendStep env s =
    (case pc_send s of
       SendRead \<Rightarrow>
         (let k = reads s; s1 = emit [Read k] (s\<lparr>reads := k + 1\<rparr>) in
          case snd (readRes env k) of
            Some EOF \<Rightarrow> Some (s1\<lparr>pc_send := SendClose\<rparr>)
          | Some (OtherErr m) \<Rightarrow> Some (emit [Log (''Could not read from stdin: '' @ m)] s1)
          | None \<Rightarrow> Some (s1\<lparr>pc_send := SendChunk (fst (readRes env k))\<rparr>))
     | SendChunk buf \<Rightarrow>
         (let j = sends s; r = sendRes env j;
              s1 = emit [SendAudio buf r] (s\<lparr>sends := j + 1, pc_send := SendRead\<rparr>) in
          case r of
            Some m \<Rightarrow> Some (emit [Log (''Could not send audio: '' @ m)] s1)
          | None \<Rightarrow> Some s1)
     | SendClose \<Rightarrow>
         (case closeSendRes env of
            Some m \<Rightarrow> Some (fatal (''Could not close stream: '' @ m) (emit [CloseSend] s))
          | None \<Rightarrow> Some (emit [CloseSend, Log ''sent all the audio''] (s\<lparr>pc_send := SendDone\<rparr>)))
     | SendDone \<Rightarrow> None)"

definition recvStep :: "env \<Rightarrow> sys \<Rightarrow> sys option" where
  "recvStep env s =
    (case pc_recv s of
       RecvCall \<Rightarrow>
         (let k = recvs s; s1 = emit [Recv k] (s\<lparr>recvs := k + 1\<rparr>) in
          case recvRes env k of
            Inl EOF \<Rightarrow>
              Some (emit [Log ''recv eof <nil>'', CloseTexts]
                      (s1\<lparr>texts_closed := True, pc_recv := RecvDone\<rparr>))
          | Inl (OtherErr m) \<Rightarrow> Some (fatal (''Cannot stream results: '' @ m) s1)
          | Inr resp \<Rightarrow>
              (case Error resp of
                 Some m \<Rightarrow> Some (fatal (''Could not recognize: '' @ m) s1)
               | None \<Rightarrow> Some (s1\<lparr>pc_recv := RecvResults (Results resp)\<rparr>)))
     | RecvResults rs \<Rightarrow>
         (case rs of
            [] \<Rightarrow> Some (s\<lparr>pc_recv := RecvCall\<rparr>)
          | r # rs' \<Rightarrow> Some (emit [LogResult r] (s\<lparr>pc_recv := RecvAlts (Alternatives r) rs'\<rparr>)))
     | RecvAlts ts rs \<Rightarrow>
         (case ts of
            [] \<Rightarrow> Some (s\<lparr>pc_recv := RecvResults rs\<rparr>)
          | t # ts' \<Rightarrow>
              if pc_bridge s = BridgeRange
              then Some (emit [TextsSend t] (s\<lparr>pc_recv := RecvAlts ts' rs, pc_bridge := BridgeSay t\<rparr>))
              else None)
     | RecvDone \<Rightarrow> None)"

definition waitStep :: "env \<Rightarrow> sys \<Rightarrow> sys option" where
  "waitStep env s =
    (case pc_wait s of
       WaitCall \<Rightarrow>
         (case waitRes env of
            Some m \<Rightarrow> Some (fatal (''wait: '' @ m) (emit [Wait] s))
          | None \<Rightarrow> Some (emit [Wait] (s\<lparr>pc_wait := WaitDone\<rparr>)))
     | WaitDone \<Rightarrow> None)"

text \<open>\<^verbatim>\<open>func say\<close>, lines 216-231; \<open>k\<close> counts the earlier calls of \<^verbatim>\<open>SynthesizeSpeech\<close>.\<close>

definition say :: "env \<Rightarrow> nat \<Rightarrow> string \<Rightarrow> string \<Rightarrow> event list \<times> (err + readcloser)" where
  "say env k vid text =
    (let input = \<lparr>OutputFormat = ''mp3'', SynthSampleRate = ''8000'', Text = text,
                  TextType = ''text'', VoiceId = vid\<rparr>;
         r = synthesizeSpeech env k input
     in ([Log (''saying '' @ [CHR 0x27] @ text @ [CHR 0x27]), Say input r], r))"

definition bridgeStep :: "env \<Rightarrow> sys \<Rightarrow> sys option" where
  "bridgeStep env s =
    (case pc_bridge s of
       BridgeRange \<Rightarrow>
         if texts_closed s
         then Some (emit [CloseStreams] (s\<lparr>streams_closed := True, pc_bridge := BridgeDone\<rparr>))
         else None
     | BridgeSay text \<Rightarrow>
         (let r = say env (synths s) (voice s) text;
              s1 = emit (fst r) (s\<lparr>synths := synths s + 1\<rparr>) in
          case snd r of
            Inl e \<Rightarrow> Some (emit [CloseStreams] (s1\<lparr>streams_closed := True, pc_bridge := BridgeDone\<rparr>))
          | Inr st \<Rightarrow> Some (s1\<lparr>pc_bridge := BridgeSend st\<rparr>))
     | BridgeSend st \<Rightarrow>
         if pc_sink s = SinkRange
         then Some (emit [StreamsSend st] (s\<lparr>pc_bridge := BridgeRange, pc_sink := SinkItem st\<rparr>))
         else None
     | BridgeDone \<Rightarrow> None)"

fun runDeferred :: "deferred_call \<Rightarrow> event" where
  "runDeferred (DeferFileClose name) = FileClose name"
| "runDeferred (DeferStreamClose st) = StreamClose st"

text \<open>
  The deferred calls are kept newest first, the order in which they run when the
  goroutine's function returns.
\<close>

definition sinkStep :: "env \<Rightarrow> sys \<Rightarrow> sys option" where
  "sinkStep env s =
    (case pc_sink s of
       SinkRange \<Rightarrow>
         if streams_closed s
         then Some (emit (map runDeferred (deferred s)) (s\<lparr>deferred := [], pc_sink := SinkDone\<rparr>))
         else None
     | SinkItem st \<Rightarrow>
         (let k = sinks s; name = fileName (now env k); r = createRes env k name;
              s1 = emit [Create name r] (s\<lparr>sinks := k + 1\<rparr>) in
          case r of
            Some e \<Rightarrow> Some (fatal e s1)
          | None \<Rightarrow>
              Some (emit [Copy name st (copyRes env k), Log (''wrote audio to '' @ name)]
                      (s1\<lparr>deferred := DeferStreamClose st # DeferFileClose name # deferred s,
                          pc_sink := SinkRange\<rparr>)))
     | SinkDone \<Rightarrow> None)"

text \<open>Line 213 and the deferred \<^verbatim>\<open>out.Close()\<close> of line 99: \<^verbatim>\<open>main\<close> returns once all six are done.\<close>

definition allDone :: "sys \<Rightarrow> bool" where
  "allDone s \<longleftrightarrow> pc_stop s = StopDone \<and> pc_send s = SendDone \<and> pc_recv s = RecvDone \<and>
     pc_wait s = WaitDone \<and> pc_bridge s = BridgeDone \<and> pc_sink s = SinkDone"

definition mainStep :: "sys \<Rightarrow> sys option" where
  "mainStep s = (if allDone s then Some (emit [OutClose] (s\<lparr>exited := Some Clean\<rparr>)) else None)"

datatype worker = StopListener | SendLoop | RecvLoop | Waiter | Bridge | Sink | MainWait

text \<open>One step of the process: none once it has exited.\<close>

definition fire :: "env \<Rightarrow> worker \<Rightarrow> sys \<Rightarrow> sys option" where
  "fire env w s =
    (if exited s \<noteq> None then None
     else case w of
       StopListener \<Rightarrow> stopStep env s
     | SendLoop \<Rightarrow> sendStep env s
     | RecvLoop \<Rightarrow> recvStep env s
     | Waiter \<Rightarrow> waitStep env s
     | Bridge \<Rightarrow> bridgeStep env s
     | Sink \<Rightarrow> sinkStep env s
     | MainWait \<Rightarrow> mainStep s)"

text \<open>The state in which the goroutines start, or in which the start-up ended the process.\<close>

definition initial :: "options \<Rightarrow> env \<Rightarrow> sys" where
  "initial opts env =
    \<lparr>trace = fst (startup opts env),
     exited = (case snd (startup opts env) of Inl ex \<Rightarrow> Some ex | Inr vid \<Rightarrow> None),
     texts_closed = False, streams_closed = False,
     voice = (case snd (startup opts env) of Inl ex \<Rightarrow> [] | Inr vid \<Rightarrow> vid),
     pc_stop = StopPrompt, pc_send = SendRead, reads = 0, sends = 0,
     pc_recv = RecvCall, recvs = 0, pc_wait = WaitCall,
     pc_bridge = BridgeRange, synths = 0, pc_sink = SinkRange, sinks = 0, deferred = []\<rparr>"

text \<open>A schedule names the goroutine that moves next; \<open>run\<close> follows it as far as it is enabled.\<close>

fun run :: "env \<Rightarrow> worker list \<Rightarrow> sys \<Rightarrow> sys option" where
  "run env [] s = Some s"
| "run env (w # ws) s = (case fire env w s of None \<Rightarrow> None | Some s' \<Rightarrow> run env ws s')"

inductive reach :: "options \<Rightarrow> env \<Rightarrow> sys \<Rightarrow> bool" for opts env where
  reach_initial: "reach opts env (initial opts env)"
| reach_fire: "reach opts env s \<Longrightarrow> fire env w s = Some s' \<Longrightarrow> reach opts env s'"

text \<open>No goroutine, and not \<^verbatim>\<open>main\<close> either, has a step.\<close>

definition halted :: "env \<Rightarrow> sys \<Rightarrow> bool" where
  "halted env s \<longleftrightarrow>
     fire env StopListener s = None \<and> fire env SendLoop s = None \<and>
     fire env RecvLoop s = None \<and> fire env Waiter s = None \<and>
     fire env Bridge s = None \<and> fire env Sink s = None \<and> fire env MainWait s = None"

text \<open>Nothing can move although the process has not exited.\<close>

definition deadlocked :: "env \<Rightarrow> sys \<Rightarrow> bool" where
  "deadlocked env s \<longleftrightarrow> exited s = None \<and> halted env s"

section \<open>Reading a trace\<close>

text \<open>What the trace says about the recognition stream: configuration and audio messages.\<close>

fun isConfig :: "event \<Rightarrow> bool" where
  "isConfig (SendConfig c r) = True"
| "isConfig _ = False"

fun isAudio :: "event \<Rightarrow> bool" where
  "isAudio (SendAudio b r) = True"
| "isAudio _ = False"

text \<open>
  The start-up gets as far as sending the configuration message: the voice lookup returns
  a first voice with an id, the client and the stream are created, and the table has the
  upper-cased codec (lines 48-70 pass).
\<close>

definition configReached :: "options \<Rightarrow> env \<Rightarrow> bool" where
  "configReached opts env =
    (case describeVoices env (language opts) of
       Inl e \<Rightarrow> False
     | Inr vs \<Rightarrow>
         (case vs of
            [] \<Rightarrow> False
          | v # _ \<Rightarrow> voiceId v \<noteq> None \<and> newClient env = None \<and> streamingRecognize env = None \<and>
                     audioEncoding_value env (ToUpper env (codec opts)) \<noteq> None))"

text \<open>
  What the trace says about the utterances: the transcripts put on \<^verbatim>\<open>texts\<close>, the texts
  given to \<^verbatim>\<open>say\<close>, the texts synthesized with the stream each gave, the streams put on
  \<^verbatim>\<open>streams\<close>, and the streams copied to a file, each in the order of the trace.
\<close>

fun evTextsSent :: "event \<Rightarrow> string list" where
  "evTextsSent (TextsSend t) = [t]"
| "evTextsSent _ = []"

fun evSaid :: "event \<Rightarrow> string list" where
  "evSaid (Say inp r) = [Text inp]"
| "evSaid _ = []"

fun evSynthesized :: "event \<Rightarrow> (string \<times> readcloser) list" where
  "evSynthesized (Say inp (Inr st)) = [(Text inp, st)]"
| "evSynthesized _ = []"

fun evStreamsSent :: "event \<Rightarrow> readcloser list" where
  "evStreamsSent (StreamsSend st) = [st]"
| "evStreamsSent _ = []"

fun evWritten :: "event \<Rightarrow> readcloser list" where
  "evWritten (Copy name st r) = [st]"
| "evWritten _ = []"

fun evCreated :: "event \<Rightarrow> string list" where
  "evCreated (Create name None) = [name]"
| "evCreated _ = []"

definition textsSent :: "event list \<Rightarrow> string list" where
  "textsSent tr = concat (map evTextsSent tr)"

definition saidTexts :: "event list \<Rightarrow> string list" where
  "saidTexts tr = concat (map evSaid tr)"

definition synthesized :: "event list \<Rightarrow> (string \<times> readcloser) list" where
  "synthesized tr = concat (map evSynthesized tr)"

definition streamsSent :: "event list \<Rightarrow> readcloser list" where
  "streamsSent tr = concat (map evStreamsSent tr)"

definition written :: "event list \<Rightarrow> readcloser list" where
  "written tr = concat (map evWritten tr)"

definition createdNames :: "event list \<Rightarrow> string list" where
  "createdNames tr = concat (map evCreated tr)"

text \<open>The file and stream events of the sink.\<close>

fun isSinkEvent :: "event \<Rightarrow> bool" where
  "isSinkEvent (Create name r) = True"
| "isSinkEvent (Copy name st r) = True"
| "isSinkEvent (FileClose name) = True"
| "isSinkEvent (StreamClose st) = True"
| "isSinkEvent _ = False"

text \<open>
  The transcripts of one answer of \<^verbatim>\<open>stream.Recv\<close> that the receive loop forwards
  (none for an error), and those of the first \<open>n\<close> answers: the order in which the
  recognition backend emits the utterances.
\<close>

definition respTexts :: "ioerr + response \<Rightarrow> string list" where
  "respTexts r =
    (case r of
       Inl e \<Rightarrow> []
     | Inr resp \<Rightarrow>
         (case Error resp of Some m \<Rightarrow> [] | None \<Rightarrow> concat (map Alternatives (Results resp))))"

definition backendTexts :: "env \<Rightarrow> nat \<Rightarrow> string list" where
  "backendTexts env n = concat (map (\<lambda>k. respTexts (recvRes env k)) [0..<n])"

text \<open>What a goroutine holds at its control point and has not passed on yet.\<close>

fun recvPending :: "recv_pc \<Rightarrow> string list" where
  "recvPending (RecvResults rs) = concat (map Alternatives rs)"
| "recvPending (RecvAlts ts rs) = ts @ concat (map Alternatives rs)"
| "recvPending _ = []"

fun bridgeText :: "bridge_pc \<Rightarrow> string list" where
  "bridgeText (BridgeSay t) = [t]"
| "bridgeText _ = []"

fun bridgeStream :: "bridge_pc \<Rightarrow> readcloser list" where
  "bridgeStream (BridgeSend st) = [st]"
| "bridgeStream _ = []"

fun sinkStream :: "sink_pc \<Rightarrow> readcloser list" where
  "sinkStream (SinkItem st) = [st]"
| "sinkStream _ = []"

text \<open>The invariant behind the order of the pipeline: nothing is lost or reordered between stages.\<close>

definition orderInv :: "env \<Rightarrow> sys \<Rightarrow> bool" where
  "orderInv env s \<longleftrightarrow>
     textsSent (trace s) @ recvPending (pc_recv s) = backendTexts env (recvs s) \<and>
     saidTexts (trace s) @ bridgeText (pc_bridge s) = textsSent (trace s) \<and>
     prefix (map fst (synthesized (trace s))) (saidTexts (trace s)) \<and>
     (pc_bridge s \<noteq> BridgeDone \<longrightarrow> map fst (synthesized (trace s)) = saidTexts (trace s)) \<and>
     streamsSent (trace s) @ bridgeStream (pc_bridge s) = map snd (synthesized (trace s)) \<and>
     written (trace s) @ sinkStream (pc_sink s) = streamsSent (trace s)"

section \<open>Concrete runs\<close>

text \<open>
  The defaults of the flags, a backend that recognizes two utterances and then ends the
  stream, and a capture process that delivers one chunk and then closes its output.
\<close>

definition opts0 :: options where
  "opts0 = \<lparr>sampleRate = 16000, language = ''sv-SE'', codec = ''flac''\<rparr>"

definition t0 :: gotime where
  "t0 = \<lparr>year = 2017, month = 3, day = 4, hour = 15, minute = 4, second = 5,
         nanosecond = 100, weekday = 6, zone = ''CET''\<rparr>"

definition t1 :: gotime where
  "t1 = t0\<lparr>second := 6, nanosecond := 300\<rparr>"

definition tSame :: gotime where
  "tSame = t0\<lparr>nanosecond := 900\<rparr>"

text \<open>
  For the concrete runs, \<^verbatim>\<open>strings.ToUpper\<close> beyond ASCII: the two runes whose upper case
  is an ASCII letter, U+0131 (bytes C4 B1, to \<^verbatim>\<open>I\<close>) and U+017F (bytes C5 BF, to \<^verbatim>\<open>S\<close>),
  and the ASCII letters are mapped; other bytes are kept, so a name resolves in a table
  with ASCII keys exactly when it does in the program.
\<close>

fun upperRunes :: "string \<Rightarrow> string" where
  "upperRunes (c # d # cs) =
     (if c = CHR 0xC4 \<and> d = CHR 0xB1 then CHR ''I'' # upperRunes cs
      else if c = CHR 0xC5 \<and> d = CHR 0xBF then CHR ''S'' # upperRunes cs
      else toUpperChar c # upperRunes (d # cs))"
| "upperRunes [c] = [toUpperChar c]"
| "upperRunes [] = []"

definition envOK :: env where
  "envOK =
    \<lparr>describeVoices = (\<lambda>l. Inr [\<lparr>voiceId = Some ''Astrid''\<rparr>]),
     newClient = None, streamingRecognize = None,
     mapUnicodeToUpper = upperRunes,
     audioEncoding_value = [''ENCODING_UNSPECIFIED'' \<mapsto> 0, ''LINEAR16'' \<mapsto> 1,
       ''FLAC'' \<mapsto> 2, ''MULAW'' \<mapsto> 3, ''AMR'' \<mapsto> 4, ''AMR_WB'' \<mapsto> 5],
     sendConfig = None, stdoutPipe = None, cmdStart = None,
     stdinReturns = True, signalRes = None,
     readRes = (\<lambda>k. if k = 0 then ([1, 2, 3], None) else ([], Some EOF)),
     sendRes = (\<lambda>k. None), closeSendRes = None,
     recvRes = (\<lambda>k. if k = 0 then Inr \<lparr>Error = None,
                                       Results = [\<lparr>Alternatives = [''turn on the lights'']\<rparr>]\<rparr>
                     else if k = 1 then Inr \<lparr>Error = None,
                                       Results = [\<lparr>Alternatives = [''what time is it'']\<rparr>]\<rparr>
                     else Inl EOF),
     waitRes = None,
     synthesizeSpeech = (\<lambda>k inp. Inr (k + 1)),
     now = (\<lambda>k. if k = 0 then t0 else t1),
     createRes = (\<lambda>k name. None), copyRes = (\<lambda>k. None)\<rparr>"

text \<open>Variations: one call of the outside world ends differently.\<close>

definition envSameSecond :: env where
  "envSameSecond = envOK\<lparr>now := (\<lambda>k. if k = 0 then t0 else tSame)\<rparr>"

definition envSynthFail :: env where
  "envSynthFail = envOK\<lparr>synthesizeSpeech := (\<lambda>k inp. if k = 0 then Inl ''throttled'' else Inr (k + 1))\<rparr>"

definition envCreateFail :: env where
  "envCreateFail = envOK\<lparr>createRes := (\<lambda>k name. if k = 0 then Some ''permission denied'' else None)\<rparr>"

definition envCopyFail :: env where
  "envCopyFail = envOK\<lparr>copyRes := (\<lambda>k. if k = 0 then Some ''no space left on device'' else None)\<rparr>"

definition envWaitErr :: env where
  "envWaitErr = envOK\<lparr>waitRes := Some ''signal: interrupt''\<rparr>"

definition envConfigFail :: env where
  "envConfigFail = envOK\<lparr>sendConfig := Some ''unavailable''\<rparr>"

definition envVoicesErr :: env where
  "envVoicesErr = envOK\<lparr>describeVoices := (\<lambda>l. Inl ''AccessDenied'')\<rparr>"

definition envNoVoices :: env where
  "envNoVoices = envOK\<lparr>describeVoices := (\<lambda>l. Inr [])\<rparr>"

definition optsWav :: options where
  "optsWav = opts0\<lparr>codec := ''wav''\<rparr>"

text \<open>The codec \<^verbatim>\<open>linear16\<close> written with a dotless i, U+0131.\<close>

definition linear16Dotless :: string where
  "linear16Dotless = ''l'' @ [CHR 0xC4, CHR 0xB1] @ ''near16''"

text \<open>
  Schedules. \<open>schedUtterance\<close> takes one answer from the backend through the pipeline:
  receive, log the result, hand the transcript to the bridge, synthesize, hand the stream
  to the sink, write the file, and return to \<^verbatim>\<open>stream.Recv\<close>.
\<close>

definition schedUtterance :: "worker list" where
  "schedUtterance = [RecvLoop, RecvLoop, RecvLoop, Bridge, Bridge, Sink, RecvLoop, RecvLoop]"

definition schedSource :: "worker list" where
  "schedSource = [StopListener, StopListener, StopListener, SendLoop, SendLoop, SendLoop, SendLoop, Waiter]"

definition schedTwoWritten :: "worker list" where
  "schedTwoWritten = schedUtterance @ schedUtterance"

definition schedComplete :: "worker list" where
  "schedComplete = schedSource @ schedTwoWritten @ [RecvLoop, Bridge, Sink, MainWait]"

text \<open>The first synthesis fails: the bridge leaves, the second transcript waits to be sent.\<close>

definition schedSynthFail :: "worker list" where
  "schedSynthFail = [RecvLoop, RecvLoop, RecvLoop, Bridge, RecvLoop, RecvLoop, RecvLoop, RecvLoop]"

definition schedStuck :: "worker list" where
  "schedStuck = schedSource @ schedSynthFail @ [Sink]"

definition schedFirstItem :: "worker list" where
  "schedFirstItem = [RecvLoop, RecvLoop, RecvLoop, Bridge, Bridge, Sink]"

definition schedStopThenWait :: "worker list" where
  "schedStopThenWait = [StopListener, StopListener, StopListener, Waiter]"

text \<open>The state after a schedule, when every step of it is enabled.\<close>

definition after :: "options \<Rightarrow> env \<Rightarrow> worker list \<Rightarrow> sys" where
  "after opts env ws = the (run env ws (initial opts env))"

section \<open>Evaluation lemmas\<close>

lemma emit_simps [simp]:
  "trace (emit evs s) = trace s @ evs"
  "exited (emit evs s) = exited s"
  "texts_closed (emit evs s) = texts_closed s"
  "streams_closed (emit evs s) = streams_closed s"
  "voice (emit evs s) = voice s"
  "pc_stop (emit evs s) = pc_stop s"
  "pc_send (emit evs s) = pc_send s"
  "reads (emit evs s) = reads s"
  "sends (emit evs s) = sends s"
  "pc_recv (emit evs s) = pc_recv s"
  "recvs (emit evs s) = recvs s"
  "pc_wait (emit evs s) = pc_wait s"
  "pc_bridge (emit evs s) = pc_bridge s"
  "synths (emit evs s) = synths s"
  "pc_sink (emit evs s) = pc_sink s"
  "sinks (emit evs s) = sinks s"
  "deferred (emit evs s) = deferred s"
  by (simp_all add: emit_def)

lemma fatal_simps [simp]:
  "trace (fatal m s) = trace s"
  "exited (fatal m s) = Some (Fatal m)"
  "texts_closed (fatal m s) = texts_closed s"
  "streams_closed (fatal m s) = streams_closed s"
  "voice (fatal m s) = voice s"
  "pc_stop (fatal m s) = pc_stop s"
  "pc_send (fatal m s) = pc_send s"
  "reads (fatal m s) = reads s"
  "sends (fatal m s) = sends s"
  "pc_recv (fatal m s) = pc_recv s"
  "recvs (fatal m s) = recvs s"
  "pc_wait (fatal m s) = pc_wait s"
  "pc_bridge (fatal m s) = pc_bridge s"
  "synths (fatal m s) = synths s"
  "pc_sink (fatal m s) = pc_sink s"
  "sinks (fatal m s) = sinks s"
  "deferred (fatal m s) = deferred s"
  by (simp_all add: fatal_def)

lemmas env_defs = envOK_def opts0_def

lemmas step_defs = fire_def stopStep_def sendStep_def recvStep_def waitStep_def bridgeStep_def
  sinkStep_def mainStep_def allDone_def say_def emit_def fatal_def Let_def

lemmas startup_defs = initial_def startup_def lookupCodec_def ToUpper_def isASCII_def toUpperChar_def
  lowerLetters_def upperLetters_def configOf_def

lemma fileName_t0: "fileName t0 = ''./tmp/Sat Mar  4 15:04:05 CET 2017.mp3''"
  by code_simp

lemma fileName_t1: "fileName t1 = ''./tmp/Sat Mar  4 15:04:06 CET 2017.mp3''"
  by code_simp

lemmas name_simps = fileName_t0 fileName_t1

lemmas run_simps = env_defs step_defs startup_defs name_simps after_def

section \<open>Start-up\<close>

lemma startup_cases:
  obtains
    (voices_err) e where "describeVoices env (language opts) = Inl e"
      "startup opts env =
         ([DescribeVoices (language opts)], Inl (Fatal (''Failed to get voices: '' @ e)))"
  | (no_voice) "describeVoices env (language opts) = Inr []"
      "startup opts env = ([DescribeVoices (language opts)], Inl PanicIndexOutOfRange)"
  | (nil_id) v vs where "describeVoices env (language opts) = Inr (v # vs)" "voiceId v = None"
      "startup opts env = ([DescribeVoices (language opts)], Inl PanicNilDereference)"
  | (client_err) v vs vid e where "describeVoices env (language opts) = Inr (v # vs)"
      "voiceId v = Some vid" "newClient env = Some e"
      "startup opts env =
         ([DescribeVoices (language opts), NewClient],
          Inl (Fatal (''Failed to create client: '' @ e)))"
  | (stream_err) v vs vid e where "describeVoices env (language opts) = Inr (v # vs)"
      "voiceId v = Some vid" "newClient env = None" "streamingRecognize env = Some e"
      "startup opts env =
         ([DescribeVoices (language opts), NewClient, StreamingRecognize], Inl (Fatal e))"
  | (codec_err) v vs vid where "describeVoices env (language opts) = Inr (v # vs)"
      "voiceId v = Some vid" "newClient env = None" "streamingRecognize env = None"
      "lookupCodec env (codec opts) = None"
      "startup opts env =
         ([DescribeVoices (language opts), NewClient, StreamingRecognize],
          Inl (Fatal (''Invalid codec: '' @ codec opts)))"
  | (config_err) v vs vid enc e where "describeVoices env (language opts) = Inr (v # vs)"
      "voiceId v = Some vid" "newClient env = None" "streamingRecognize env = None"
      "lookupCodec env (codec opts) = Some enc" "sendConfig env = Some e"
      "startup opts env =
         ([DescribeVoices (language opts), NewClient, StreamingRecognize,
           SendConfig (configOf opts enc) (Some e)], Inl (Fatal e))"
  | (pipe_err) v vs vid enc e where "describeVoices env (language opts) = Inr (v # vs)"
      "voiceId v = Some vid" "newClient env = None" "streamingRecognize env = None"
      "lookupCodec env (codec opts) = Some enc" "sendConfig env = None" "stdoutPipe env = Some e"
      "startup opts env =
         ([DescribeVoices (language opts), NewClient, StreamingRecognize,
           SendConfig (configOf opts enc) None, Log ''sent config. now listening on stdin'',
           StdoutPipe], Inl (Fatal e))"
  | (start_err) v vs vid enc e where "describeVoices env (language opts) = Inr (v # vs)"
      "voiceId v = Some vid" "newClient env = None" "streamingRecognize env = None"
      "lookupCodec env (codec opts) = Some enc" "sendConfig env = None" "stdoutPipe env = None"
      "cmdStart env = Some e"
      "startup opts env =
         ([DescribeVoices (language opts), NewClient, StreamingRecognize,
           SendConfig (configOf opts enc) None, Log ''sent config. now listening on stdin'',
           StdoutPipe, CmdStart (sampleRate opts) (codec opts)], Inl (Fatal (''start: '' @ e)))"
  | (started) v vs vid enc where "describeVoices env (language opts) = Inr (v # vs)"
      "voiceId v = Some vid" "newClient env = None" "streamingRecognize env = None"
      "lookupCodec env (codec opts) = Some enc" "sendConfig env = None" "stdoutPipe env = None"
      "cmdStart env = None"
      "startup opts env =
         ([DescribeVoices (language opts), NewClient, StreamingRecognize,
           SendConfig (configOf opts enc) None, Log ''sent config. now listening on stdin'',
           StdoutPipe, CmdStart (sampleRate opts) (codec opts)], Inr vid)"
proof (cases "describeVoices env (language opts)")
  case (Inl e)
  then show ?thesis using voices_err by (simp add: startup_def)
next
  case (Inr voices)
  show ?thesis
  proof (cases voices)
    case Nil
    with Inr show ?thesis using no_voice by (simp add: startup_def)
  next
    case (Cons v vs)
    note dv = Inr[unfolded Cons]
    show ?thesis
    proof (cases "voiceId v")
      case None
      with dv show ?thesis using nil_id by (simp add: startup_def)
    next
      case (Some vid)
      note vi = Some
      show ?thesis
      proof (cases "newClient env")
        case (Some e)
        with dv vi show ?thesis using client_err by (simp add: startup_def)
      next
        case None
        note nc = None
        show ?thesis
        proof (cases "streamingRecognize env")
          case (Some e)
          with dv vi nc show ?thesis using stream_err by (simp add: startup_def)
        next
          case None
          note sr = None
          show ?thesis
          proof (cases "lookupCodec env (codec opts)")
            case None
            with dv vi nc sr show ?thesis using codec_err by (simp add: startup_def)
          next
            case (Some enc)
            note lc = Some
            show ?thesis
            proof (cases "sendConfig env")
              case (Some e)
              with dv vi nc sr lc show ?thesis using config_err by (simp add: startup_def)
            next
              case None
              note sc = None
              show ?thesis
              proof (cases "stdoutPipe env")
                case (Some e)
                with dv vi nc sr lc sc show ?thesis using pipe_err by (simp add: startup_def)
              next
                case None
                note sp = None
                show ?thesis
                proof (cases "cmdStart env")
                  case (Some e)
                  with dv vi nc sr lc sc sp show ?thesis using start_err
                    by (simp add: startup_def)
                next
                  case None
                  with dv vi nc sr lc sc sp show ?thesis using started
                    by (simp add: startup_def)
                qed
              qed
            qed
          qed
        qed
      qed
    qed
  qed
qed

lemma toUpper_toLower: "toUpperChar (toLowerChar c) = toUpperChar c"
  unfolding toUpperChar_def toLowerChar_def lowerLetters_def upperLetters_def
  by (simp split: option.splits)

lemma asciiFold_upper:
  assumes "asciiFold a = asciiFold b"
  shows "map toUpperChar a = map toUpperChar b"
proof -
  have "map toUpperChar (asciiFold a) = map toUpperChar (asciiFold b)"
    using assms by simp
  then show ?thesis by (simp add: asciiFold_def comp_def toUpper_toLower)
qed

lemma lower_codes: "map of_char lowerLetters = [97 ..< 123 :: nat]"
  by (simp add: lowerLetters_def upt_rec)

lemma upper_char_code:
  "(of_char (toUpperChar c) :: nat) =
     (if 97 \<le> (of_char c :: nat) \<and> (of_char c :: nat) \<le> 122 then of_char c - 32 else of_char c)"
proof (cases "c \<in> set lowerLetters")
  case True
  then show ?thesis
    unfolding lowerLetters_def toUpperChar_def upperLetters_def
    by (elim disjE | simp)+
next
  case False
  have S: "set (map of_char lowerLetters) = {97 ..< 123 :: nat}"
    by (simp only: lower_codes set_upt)
  have n: "(of_char c :: nat) \<notin> set (map of_char lowerLetters)"
  proof
    assume "(of_char c :: nat) \<in> set (map of_char lowerLetters)"
    then obtain d where "d \<in> set lowerLetters" "(of_char d :: nat) = of_char c" by auto
    then have "d = c" by simp
    with False \<open>d \<in> set lowerLetters\<close> show False by simp
  qed
  have "\<not> (97 \<le> (of_char c :: nat) \<and> (of_char c :: nat) \<le> 122)"
    using n[unfolded S] by auto
  moreover have "toUpperChar c = c"
    using False unfolding toUpperChar_def lowerLetters_def upperLetters_def
    by (auto split: option.splits)
  ultimately show ?thesis by auto
qed

lemma startup_no_audio: "e \<in> set (fst (startup opts env)) \<Longrightarrow> \<not> isAudio e"
  by (rule startup_cases[of env opts]) auto

lemma startup_configs:
  "filter isConfig (fst (startup opts env)) =
     (if configReached opts env
      then [SendConfig (configOf opts (the (lookupCodec env (codec opts)))) (sendConfig env)]
      else [])"
  by (rule startup_cases[of env opts]) (simp_all add: configReached_def lookupCodec_def)

lemma startup_config_payload:
  "SendConfig c r \<in> set (fst (startup opts env)) \<Longrightarrow>
     r = sendConfig env \<and> (\<exists>enc. lookupCodec env (codec opts) = Some enc \<and> c = configOf opts enc)"
  by (rule startup_cases[of env opts]) auto

lemma startup_ok_trace:
  "snd (startup opts env) = Inr vid \<Longrightarrow>
     \<exists>enc. lookupCodec env (codec opts) = Some enc \<and>
       fst (startup opts env) =
         [DescribeVoices (language opts), NewClient, StreamingRecognize,
          SendConfig (configOf opts enc) None, Log ''sent config. now listening on stdin'',
          StdoutPipe, CmdStart (sampleRate opts) (codec opts)]"
  by (rule startup_cases[of env opts]) simp_all

lemma startup_config_failed:
  "SendConfig c (Some e) \<in> set (fst (startup opts env)) \<Longrightarrow> snd (startup opts env) = Inl (Fatal e)"
  by (rule startup_cases[of env opts]) auto

lemma startup_silent:
  "textsSent (fst (startup opts env)) = []" "saidTexts (fst (startup opts env)) = []"
  "synthesized (fst (startup opts env)) = []" "streamsSent (fst (startup opts env)) = []"
  "written (fst (startup opts env)) = []"
  by (rule startup_cases[of env opts]; simp add:
      textsSent_def saidTexts_def synthesized_def streamsSent_def written_def)+


section \<open>Steps\<close>

lemma fire_running: "fire env w s = Some s' \<Longrightarrow> exited s = None"
  by (simp add: fire_def split: if_splits)

lemma fire_exited: "exited s \<noteq> None \<Longrightarrow> fire env w s = None"
  by (simp add: fire_def)

lemma run_reach: "reach opts env s \<Longrightarrow> run env ws s = Some s' \<Longrightarrow> reach opts env s'"
proof (induction ws arbitrary: s)
  case Nil
  then show ?case by simp
next
  case (Cons w ws)
  then obtain s1 where s1: "fire env w s = Some s1" and rest: "run env ws s1 = Some s'"
    by (auto split: option.splits)
  from Cons.prems(1) s1 have "reach opts env s1" by (rule reach_fire)
  with rest show ?case by (rule Cons.IH[rotated])
qed

lemma reach_exited_initial:
  "reach opts env s \<Longrightarrow> exited (initial opts env) \<noteq> None \<Longrightarrow> s = initial opts env"
  by (induction rule: reach.induct) (auto simp: fire_def)

lemma runDeferred_not_config [simp]: "\<not> isConfig (runDeferred d)"
  by (cases d) simp_all

lemma stop_trace: "stopStep env s = Some s' \<Longrightarrow> \<exists>evs. trace s' = trace s @ evs \<and> (\<forall>e\<in>set evs. \<not> isConfig e)"
  by (auto simp: stopStep_def split: stop_pc.splits if_splits option.splits)

lemma send_trace: "sendStep env s = Some s' \<Longrightarrow> \<exists>evs. trace s' = trace s @ evs \<and> (\<forall>e\<in>set evs. \<not> isConfig e)"
  by (auto simp: sendStep_def Let_def split: send_pc.splits if_splits option.splits ioerr.splits)

lemma recv_trace: "recvStep env s = Some s' \<Longrightarrow> \<exists>evs. trace s' = trace s @ evs \<and> (\<forall>e\<in>set evs. \<not> isConfig e)"
  by (auto simp: recvStep_def Let_def
      split: recv_pc.splits if_splits option.splits ioerr.splits sum.splits list.splits)

lemma wait_trace: "waitStep env s = Some s' \<Longrightarrow> \<exists>evs. trace s' = trace s @ evs \<and> (\<forall>e\<in>set evs. \<not> isConfig e)"
  by (auto simp: waitStep_def split: wait_pc.splits if_splits option.splits)

lemma bridge_trace: "bridgeStep env s = Some s' \<Longrightarrow> \<exists>evs. trace s' = trace s @ evs \<and> (\<forall>e\<in>set evs. \<not> isConfig e)"
  by (auto simp: bridgeStep_def Let_def say_def split: bridge_pc.splits if_splits sum.splits)

lemma sink_trace: "sinkStep env s = Some s' \<Longrightarrow> \<exists>evs. trace s' = trace s @ evs \<and> (\<forall>e\<in>set evs. \<not> isConfig e)"
  by (auto simp: sinkStep_def Let_def split: sink_pc.splits if_splits option.splits)

lemma main_trace: "mainStep s = Some s' \<Longrightarrow> \<exists>evs. trace s' = trace s @ evs \<and> (\<forall>e\<in>set evs. \<not> isConfig e)"
  by (auto simp: mainStep_def split: if_splits)

lemma fire_trace:
  "fire env w s = Some s' \<Longrightarrow> \<exists>evs. trace s' = trace s @ evs \<and> (\<forall>e\<in>set evs. \<not> isConfig e)"
  by (cases w)
     (simp_all add: fire_def stop_trace send_trace recv_trace wait_trace bridge_trace sink_trace
        main_trace split: if_splits)

lemma reach_trace:
  "reach opts env s \<Longrightarrow>
     \<exists>post. trace s = fst (startup opts env) @ post \<and> (\<forall>e\<in>set post. \<not> isConfig e) \<and>
       (post \<noteq> [] \<longrightarrow> (\<exists>vid. snd (startup opts env) = Inr vid))"
proof (induction rule: reach.induct)
  case reach_initial
  show ?case by (simp add: initial_def)
next
  case (reach_fire s w s')
  then obtain post where post: "trace s = fst (startup opts env) @ post"
    "\<forall>e\<in>set post. \<not> isConfig e" by blast
  from reach_fire.hyps(2) obtain evs where evs: "trace s' = trace s @ evs"
    "\<forall>e\<in>set evs. \<not> isConfig e" using fire_trace by blast
  have running: "exited s = None" using reach_fire.hyps(2) by (rule fire_running)
  have "exited (initial opts env) = None"
  proof (rule ccontr)
    assume "exited (initial opts env) \<noteq> None"
    with reach_fire.hyps(1) have "s = initial opts env" by (rule reach_exited_initial)
    with running \<open>exited (initial opts env) \<noteq> None\<close> show False by simp
  qed
  then have ok: "\<exists>vid. snd (startup opts env) = Inr vid"
    by (simp add: initial_def split: sum.splits)
  have "trace s' = fst (startup opts env) @ (post @ evs)" using post evs by simp
  moreover have "\<forall>e\<in>set (post @ evs). \<not> isConfig e" using post evs by auto
  ultimately show ?case using ok by blast
qed


section \<open>The order invariant\<close>

lemma prefix_of_append_eq: "a @ b = c \<Longrightarrow> prefix a c"
  by (auto simp: prefix_def)

lemma runDeferred_silent [simp]:
  "evTextsSent (runDeferred d) = []" "evSaid (runDeferred d) = []"
  "evSynthesized (runDeferred d) = []" "evStreamsSent (runDeferred d) = []"
  "evWritten (runDeferred d) = []"
  by (cases d; simp)+

lemma deferred_silent [simp]:
  "concat (map (evTextsSent \<circ> runDeferred) ds) = []"
  "concat (map (evSaid \<circ> runDeferred) ds) = []"
  "concat (map (evSynthesized \<circ> runDeferred) ds) = []"
  "concat (map (evStreamsSent \<circ> runDeferred) ds) = []"
  "concat (map (evWritten \<circ> runDeferred) ds) = []"
  by (induction ds) simp_all

lemma backendTexts_Suc:
  "backendTexts env (Suc n) = backendTexts env n @ respTexts (recvRes env n)"
  by (simp add: backendTexts_def)

lemma orderInv_stop: "stopStep env s = Some s' \<Longrightarrow> orderInv env s \<Longrightarrow> orderInv env s'"
  by (auto simp: stopStep_def orderInv_def textsSent_def saidTexts_def synthesized_def
      streamsSent_def written_def split: stop_pc.splits if_splits option.splits)

lemma orderInv_send: "sendStep env s = Some s' \<Longrightarrow> orderInv env s \<Longrightarrow> orderInv env s'"
  by (auto simp: sendStep_def orderInv_def
      textsSent_def saidTexts_def synthesized_def streamsSent_def written_def Let_def
      split: send_pc.splits if_splits option.splits ioerr.splits)

lemma orderInv_wait: "waitStep env s = Some s' \<Longrightarrow> orderInv env s \<Longrightarrow> orderInv env s'"
  by (auto simp: waitStep_def orderInv_def textsSent_def saidTexts_def synthesized_def
      streamsSent_def written_def split: wait_pc.splits if_splits option.splits)

lemma orderInv_main: "mainStep s = Some s' \<Longrightarrow> orderInv env s \<Longrightarrow> orderInv env s'"
  by (auto simp: mainStep_def orderInv_def textsSent_def saidTexts_def synthesized_def
      streamsSent_def written_def split: if_splits)

lemma orderInv_recv: "recvStep env s = Some s' \<Longrightarrow> orderInv env s \<Longrightarrow> orderInv env s'"
  by (auto simp: recvStep_def orderInv_def
      textsSent_def saidTexts_def synthesized_def streamsSent_def written_def Let_def backendTexts_Suc respTexts_def
      split: recv_pc.splits if_splits option.splits ioerr.splits sum.splits list.splits)

lemma orderInv_bridge: "bridgeStep env s = Some s' \<Longrightarrow> orderInv env s \<Longrightarrow> orderInv env s'"
  by (auto simp: bridgeStep_def orderInv_def
      textsSent_def saidTexts_def synthesized_def streamsSent_def written_def Let_def say_def
      split: bridge_pc.splits if_splits sum.splits intro: prefix_of_append_eq)

lemma orderInv_sink: "sinkStep env s = Some s' \<Longrightarrow> orderInv env s \<Longrightarrow> orderInv env s'"
  by (auto simp: sinkStep_def orderInv_def
      textsSent_def saidTexts_def synthesized_def streamsSent_def written_def Let_def
      split: sink_pc.splits if_splits option.splits)

lemma orderInv_fire: "fire env w s = Some s' \<Longrightarrow> orderInv env s \<Longrightarrow> orderInv env s'"
  by (cases w)
     (auto simp: fire_def orderInv_stop orderInv_send orderInv_recv orderInv_wait
        orderInv_bridge orderInv_sink orderInv_main split: if_splits)

lemma orderInv_initial: "orderInv env (initial opts env)"
  by (simp add: orderInv_def initial_def startup_silent backendTexts_def)

lemma orderInv_reach: "reach opts env s \<Longrightarrow> orderInv env s"
  by (induction rule: reach.induct) (auto intro: orderInv_initial orderInv_fire)

lemma run_after:
  assumes "run env ws (initial opts env) = Some s"
  shows "reach opts env (after opts env ws)"
proof -
  have "reach opts env s" using reach_initial assms by (rule run_reach)
  then show ?thesis using assms by (simp add: after_def)
qed

section \<open>The claims\<close>

text \<open>
  C10. When the voice lookup succeeds with an empty list, \<^verbatim>\<open>resp.Voices[0]\<close> on line 54
  panics with an index out of range: the process does not end with a \<^verbatim>\<open>log.Fatal\<close>
  diagnostic. The start-up gets past line 54 only when at least one voice was returned.
\<close>

theorem empty_voice_list_panics:
  "(describeVoices env (language opts) = Inr [] \<longrightarrow>
      startup opts env = ([DescribeVoices (language opts)], Inl PanicIndexOutOfRange)) \<and>
   (NewClient \<in> set (fst (startup opts env)) \<or> (\<exists>vid. snd (startup opts env) = Inr vid) \<longrightarrow>
      (\<exists>v vs. describeVoices env (language opts) = Inr (v # vs)))"
  by (rule startup_cases[of env opts]) auto

theorem empty_voice_list_panics_witness:
  "startup opts0 envNoVoices = ([DescribeVoices ''sv-SE''], Inl PanicIndexOutOfRange) \<and>
   (\<exists>v vs. describeVoices envOK (language opts0) = Inr (v # vs))"
  using empty_voice_list_panics[of envNoVoices opts0] empty_voice_list_panics[of envOK opts0]
  by (simp add: env_defs envNoVoices_def startup_defs)

text \<open>
  C9, as the code has it. The codec flag is upper-cased by \<^verbatim>\<open>strings.ToUpper\<close> and looked
  up in the encoding table (line 67), so the lookup does not tell apart names with the
  same upper-case form; on ASCII names these are the names that differ only in the case
  of their letters, a-z being moved to A-Z by their codes. Once the voice lookup, the
  creation of the recognition client and the opening of the recognition stream have
  succeeded, a name that the table has gives the encoding of the configuration message,
  and a name that it does not have ends the process with
  \<^verbatim>\<open>log.Fatalf("Invalid codec: ...")\<close>. With such a name the start-up never gets
  further: no configuration message is sent and the capture subprocess is not started.
\<close>

theorem unknown_codec_fatal_after_connect:
  "lookupCodec env name = audioEncoding_value env (ToUpper env name) \<and>
   (ToUpper env a = ToUpper env b \<longrightarrow> lookupCodec env a = lookupCodec env b) \<and>
   (isASCII a \<and> isASCII b \<and> asciiFold a = asciiFold b \<longrightarrow>
      lookupCodec env a = lookupCodec env b) \<and>
   (isASCII name \<longrightarrow>
      map of_char (ToUpper env name) =
        map (\<lambda>c. if 97 \<le> (of_char c :: nat) \<and> (of_char c :: nat) \<le> 122
                 then (of_char c :: nat) - 32 else of_char c) name) \<and>
   (\<forall>v vs vid. describeVoices env (language opts) = Inr (v # vs) \<and> voiceId v = Some vid \<and>
      newClient env = None \<and> streamingRecognize env = None \<longrightarrow>
      (audioEncoding_value env (ToUpper env (codec opts)) = None \<longrightarrow>
         startup opts env =
           ([DescribeVoices (language opts), NewClient, StreamingRecognize],
            Inl (Fatal (''Invalid codec: '' @ codec opts)))) \<and>
      (\<forall>enc. audioEncoding_value env (ToUpper env (codec opts)) = Some enc \<longrightarrow>
         take 4 (fst (startup opts env)) =
           [DescribeVoices (language opts), NewClient, StreamingRecognize,
            SendConfig \<lparr>LanguageCode = language opts, Encoding = enc,
                         SampleRate = ucast (sampleRate opts)\<rparr> (sendConfig env)])) \<and>
   (audioEncoding_value env (ToUpper env (codec opts)) = None \<longrightarrow>
      (\<exists>ex. snd (startup opts env) = Inl ex) \<and>
      set (fst (startup opts env)) \<subseteq>
        {DescribeVoices (language opts), NewClient, StreamingRecognize})"
proof -
  have pin: "lookupCodec env name = audioEncoding_value env (ToUpper env name)"
    by (simp add: lookupCodec_def)
  have same: "ToUpper env a = ToUpper env b \<longrightarrow> lookupCodec env a = lookupCodec env b"
    by (simp add: lookupCodec_def)
  have ascii: "isASCII a \<and> isASCII b \<and> asciiFold a = asciiFold b \<longrightarrow>
      lookupCodec env a = lookupCodec env b"
    by (auto simp: lookupCodec_def ToUpper_def dest: asciiFold_upper)
  have codes: "isASCII name \<longrightarrow>
      map of_char (ToUpper env name) =
        map (\<lambda>c. if 97 \<le> (of_char c :: nat) \<and> (of_char c :: nat) \<le> 122
                 then (of_char c :: nat) - 32 else of_char c) name"
    by (simp add: ToUpper_def upper_char_code)
  have after_connect: "\<forall>v vs vid. describeVoices env (language opts) = Inr (v # vs) \<and>
      voiceId v = Some vid \<and> newClient env = None \<and> streamingRecognize env = None \<longrightarrow>
      (audioEncoding_value env (ToUpper env (codec opts)) = None \<longrightarrow>
         startup opts env =
           ([DescribeVoices (language opts), NewClient, StreamingRecognize],
            Inl (Fatal (''Invalid codec: '' @ codec opts)))) \<and>
      (\<forall>enc. audioEncoding_value env (ToUpper env (codec opts)) = Some enc \<longrightarrow>
         take 4 (fst (startup opts env)) =
           [DescribeVoices (language opts), NewClient, StreamingRecognize,
            SendConfig \<lparr>LanguageCode = language opts, Encoding = enc,
                         SampleRate = ucast (sampleRate opts)\<rparr> (sendConfig env)])"
    by (rule startup_cases[of env opts]) (auto simp: lookupCodec_def configOf_def)
  have unknown: "audioEncoding_value env (ToUpper env (codec opts)) = None \<longrightarrow>
      (\<exists>ex. snd (startup opts env) = Inl ex) \<and>
      set (fst (startup opts env)) \<subseteq>
        {DescribeVoices (language opts), NewClient, StreamingRecognize}"
    by (rule startup_cases[of env opts]) (auto simp: lookupCodec_def)
  from pin same ascii codes after_connect unknown show ?thesis by (intro conjI)
qed

theorem unknown_codec_fatal_after_connect_witness:
  "lookupCodec envOK ''flac'' = Some 2 \<and>
   lookupCodec envOK ''FlaC'' = lookupCodec envOK ''flac'' \<and>
   lookupCodec envOK ''FLAC'' = lookupCodec envOK ''flac'' \<and>
   lookupCodec envOK linear16Dotless = Some 1 \<and>
   map of_char (ToUpper envOK ''flac'') = [70, 76, 65, 67 :: nat] \<and>
   startup optsWav envOK =
     ([DescribeVoices ''sv-SE'', NewClient, StreamingRecognize],
      Inl (Fatal ''Invalid codec: wav'')) \<and>
   take 4 (fst (startup opts0 envOK)) =
     [DescribeVoices ''sv-SE'', NewClient, StreamingRecognize,
      SendConfig \<lparr>LanguageCode = ''sv-SE'', Encoding = 2, SampleRate = 16000\<rparr> None]"
proof -
  have up: "ToUpper envOK ''flac'' = ''FLAC''" "ToUpper envOK ''FLAC'' = ''FLAC''"
    "ToUpper envOK linear16Dotless = ''LINEAR16''" "ToUpper envOK ''wav'' = ''WAV''"
    by (simp_all add: ToUpper_def isASCII_def toUpperChar_def lowerLetters_def upperLetters_def
        linear16Dotless_def envOK_def)
  have tbl: "audioEncoding_value envOK ''FLAC'' = Some 2"
    "audioEncoding_value envOK ''LINEAR16'' = Some 1" "audioEncoding_value envOK ''WAV'' = None"
    by (simp_all add: envOK_def)
  have asc: "isASCII ''FlaC'' \<and> isASCII ''flac'' \<and> asciiFold ''FlaC'' = asciiFold ''flac''"
    "isASCII ''flac''"
    by (simp_all add: isASCII_def asciiFold_def toLowerChar_def lowerLetters_def upperLetters_def)
  have v: "describeVoices envOK (language optsWav) = Inr (\<lparr>voiceId = Some ''Astrid''\<rparr> # []) \<and>
      voiceId \<lparr>voiceId = Some ''Astrid''\<rparr> = Some ''Astrid'' \<and>
      newClient envOK = None \<and> streamingRecognize envOK = None"
    "describeVoices envOK (language opts0) = Inr (\<lparr>voiceId = Some ''Astrid''\<rparr> # []) \<and>
      voiceId \<lparr>voiceId = Some ''Astrid''\<rparr> = Some ''Astrid'' \<and>
      newClient envOK = None \<and> streamingRecognize envOK = None"
    by (simp_all add: envOK_def optsWav_def opts0_def)
  have o: "codec optsWav = ''wav''" "codec opts0 = ''flac''" "language optsWav = ''sv-SE''"
    "language opts0 = ''sv-SE''" "sampleRate opts0 = 16000" "sendConfig envOK = None"
    by (simp_all add: envOK_def optsWav_def opts0_def)
  note t = unknown_codec_fatal_after_connect
  from t[where env = envOK and name = "''flac''" and a = "''flac''" and b = "''flac''"
        and opts = opts0] up tbl asc(2)
  have 1: "lookupCodec envOK ''flac'' = Some 2"
    "map of_char (ToUpper envOK ''flac'') = [70, 76, 65, 67 :: nat]"
    by simp_all
  from t[where env = envOK and name = "''flac''" and a = "''FlaC''" and b = "''flac''"
        and opts = opts0] asc
  have 2: "lookupCodec envOK ''FlaC'' = lookupCodec envOK ''flac''" by simp
  from t[where env = envOK and name = "''flac''" and a = "''FLAC''" and b = "''flac''"
        and opts = opts0] up
  have 3: "lookupCodec envOK ''FLAC'' = lookupCodec envOK ''flac''" by simp
  from t[where env = envOK and name = linear16Dotless and a = "''flac''" and b = "''flac''"
        and opts = opts0] up tbl
  have 4: "lookupCodec envOK linear16Dotless = Some 1" by simp
  from t[where env = envOK and name = "''flac''" and a = "''flac''" and b = "''flac''"
        and opts = optsWav] v(1) up tbl o
  have 5: "startup optsWav envOK =
     ([DescribeVoices ''sv-SE'', NewClient, StreamingRecognize],
      Inl (Fatal ''Invalid codec: wav''))"
    by simp
  from t[where env = envOK and name = "''flac''" and a = "''flac''" and b = "''flac''"
        and opts = opts0] v(2) up tbl o
  have 6: "take 4 (fst (startup opts0 envOK)) =
     [DescribeVoices ''sv-SE'', NewClient, StreamingRecognize,
      SendConfig \<lparr>LanguageCode = ''sv-SE'', Encoding = 2, SampleRate = 16000\<rparr> None]"
    by simp
  from 1 2 3 4 5 6 show ?thesis by simp
qed

text \<open>
  Against C9 as stated: with the codec \<^verbatim>\<open>wav\<close>, which the table does not have, the
  process ends at the lookup, and by then the recognition client is connected and the
  recognition stream is open.
\<close>

theorem invalid_codec_after_connection:
  "ToUpper envOK (codec optsWav) = ''WAV'' \<and>
   audioEncoding_value envOK ''WAV'' = None \<and>
   startup optsWav envOK =
     ([DescribeVoices ''sv-SE'', NewClient, StreamingRecognize], Inl (Fatal ''Invalid codec: wav''))"
  by (simp add: env_defs optsWav_def startup_defs)

lemma fileName_tSame: "fileName tSame = ''./tmp/Sat Mar  4 15:04:05 CET 2017.mp3''"
  by code_simp

text \<open>
  C5. The file name is the time formatted to the second. Two utterances that reach the
  sink within one second get the same name: here the clock reads 15:04:05 at both calls,
  at different instants, and \<^verbatim>\<open>os.Create\<close> is called twice on one path.
\<close>

theorem same_second_same_file_name:
  "now envSameSecond 0 \<noteq> now envSameSecond 1 \<and>
   fileName (now envSameSecond 0) = fileName (now envSameSecond 1) \<and>
   run envSameSecond schedTwoWritten (initial opts0 envSameSecond) \<noteq> None \<and>
   written (trace (after opts0 envSameSecond schedTwoWritten)) = [1, 2] \<and>
   createdNames (trace (after opts0 envSameSecond schedTwoWritten)) =
     [''./tmp/Sat Mar  4 15:04:05 CET 2017.mp3'', ''./tmp/Sat Mar  4 15:04:05 CET 2017.mp3'']"
proof -
  have "now envSameSecond 0 \<noteq> now envSameSecond 1"
    by (simp add: env_defs envSameSecond_def fileName_tSame t0_def tSame_def)
  then show ?thesis by (simp add: run_simps schedUtterance_def schedTwoWritten_def written_def
      createdNames_def envSameSecond_def fileName_tSame)
qed

text \<open>
  C8. The sink defers both \<^verbatim>\<open>Close\<close> calls inside the loop. After two utterances are
  written no file and no stream has been closed and four calls are pending; they run,
  newest first, when the loop has ended.
\<close>

theorem sink_closes_only_at_exit:
  "run envOK schedTwoWritten (initial opts0 envOK) \<noteq> None \<and>
   filter isSinkEvent (trace (after opts0 envOK schedTwoWritten)) =
     [Create ''./tmp/Sat Mar  4 15:04:05 CET 2017.mp3'' None,
      Copy ''./tmp/Sat Mar  4 15:04:05 CET 2017.mp3'' 1 None,
      Create ''./tmp/Sat Mar  4 15:04:06 CET 2017.mp3'' None,
      Copy ''./tmp/Sat Mar  4 15:04:06 CET 2017.mp3'' 2 None] \<and>
   deferred (after opts0 envOK schedTwoWritten) =
     [DeferStreamClose 2, DeferFileClose ''./tmp/Sat Mar  4 15:04:06 CET 2017.mp3'',
      DeferStreamClose 1, DeferFileClose ''./tmp/Sat Mar  4 15:04:05 CET 2017.mp3''] \<and>
   pc_sink (after opts0 envOK schedTwoWritten) = SinkRange \<and>
   run envOK schedComplete (initial opts0 envOK) \<noteq> None \<and>
   filter isSinkEvent (trace (after opts0 envOK schedComplete)) =
     [Create ''./tmp/Sat Mar  4 15:04:05 CET 2017.mp3'' None,
      Copy ''./tmp/Sat Mar  4 15:04:05 CET 2017.mp3'' 1 None,
      Create ''./tmp/Sat Mar  4 15:04:06 CET 2017.mp3'' None,
      Copy ''./tmp/Sat Mar  4 15:04:06 CET 2017.mp3'' 2 None,
      StreamClose 2, FileClose ''./tmp/Sat Mar  4 15:04:06 CET 2017.mp3'',
      StreamClose 1, FileClose ''./tmp/Sat Mar  4 15:04:05 CET 2017.mp3''] \<and>
   pc_sink (after opts0 envOK schedComplete) = SinkDone"
  by (simp add: run_simps schedUtterance_def schedSource_def schedTwoWritten_def
      schedComplete_def)

text \<open>
  C1. The first synthesis fails. The bridge leaves its loop (\<^verbatim>\<open>break\<close>, line 188) and
  closes \<^verbatim>\<open>streams\<close>: the second transcript is never synthesized, and the receive loop,
  which holds it, cannot hand it over.
\<close>

theorem bridge_stops_at_synthesis_failure:
  "run envSynthFail schedSynthFail (initial opts0 envSynthFail) \<noteq> None \<and>
   backendTexts envSynthFail (recvs (after opts0 envSynthFail schedSynthFail)) =
     [''turn on the lights'', ''what time is it''] \<and>
   saidTexts (trace (after opts0 envSynthFail schedSynthFail)) = [''turn on the lights''] \<and>
   synthesized (trace (after opts0 envSynthFail schedSynthFail)) = [] \<and>
   pc_bridge (after opts0 envSynthFail schedSynthFail) = BridgeDone \<and>
   streams_closed (after opts0 envSynthFail schedSynthFail) \<and>
   pc_recv (after opts0 envSynthFail schedSynthFail) = RecvAlts [''what time is it''] [] \<and>
   fire envSynthFail Bridge (after opts0 envSynthFail schedSynthFail) = None \<and>
   fire envSynthFail RecvLoop (after opts0 envSynthFail schedSynthFail) = None \<and>
   exited (after opts0 envSynthFail schedSynthFail) = None"
  by (simp add: run_simps saidTexts_def synthesized_def envSynthFail_def schedSynthFail_def
      backendTexts_def respTexts_def)

text \<open>
  C2. In that run the capture process reaches end of input and is waited for, the stop
  listener and the send loop end, the bridge and the sink end; the receive loop stays
  at its send on \<^verbatim>\<open>texts\<close> for ever. \<^verbatim>\<open>streams\<close> is closed although \<^verbatim>\<open>texts\<close> is not,
  no goroutine can move and \<^verbatim>\<open>wg.Wait()\<close> does not return.
\<close>

theorem shutdown_deadlocks_after_synthesis_failure:
  "run envSynthFail schedStuck (initial opts0 envSynthFail) \<noteq> None \<and>
   snd (readRes envSynthFail 1) = Some EOF \<and>
   pc_send (after opts0 envSynthFail schedStuck) = SendDone \<and>
   pc_stop (after opts0 envSynthFail schedStuck) = StopDone \<and>
   pc_wait (after opts0 envSynthFail schedStuck) = WaitDone \<and>
   pc_bridge (after opts0 envSynthFail schedStuck) = BridgeDone \<and>
   pc_sink (after opts0 envSynthFail schedStuck) = SinkDone \<and>
   pc_recv (after opts0 envSynthFail schedStuck) = RecvAlts [''what time is it''] [] \<and>
   streams_closed (after opts0 envSynthFail schedStuck) \<and>
   \<not> texts_closed (after opts0 envSynthFail schedStuck) \<and>
   \<not> allDone (after opts0 envSynthFail schedStuck) \<and>
   deadlocked envSynthFail (after opts0 envSynthFail schedStuck)"
  by (simp add: run_simps schedSource_def deadlocked_def halted_def envSynthFail_def
      schedSynthFail_def schedStuck_def)

text \<open>
  C3, as the code has it. When \<^verbatim>\<open>os.Create\<close> fails for an item, the sink calls
  \<^verbatim>\<open>log.Fatal\<close> (line 203): the error is logged and the process ends, nothing is written
  for the item and no goroutine takes another step. When the file is created, the loop
  body ends back at the \<^verbatim>\<open>range\<close> with the process running, whatever \<^verbatim>\<open>io.Copy\<close>
  returned: a failed write does not stop the sink loop.
\<close>

theorem sink_create_failure_is_fatal:
  "pc_sink s = SinkItem st \<and> exited s = None \<longrightarrow>
     (\<forall>e. createRes env (sinks s) (fileName (now env (sinks s))) = Some e \<longrightarrow>
        (\<exists>s'. fire env Sink s = Some s' \<and> exited s' = Some (Fatal e) \<and>
              written (trace s') = written (trace s) \<and> (\<forall>w. fire env w s' = None))) \<and>
     (createRes env (sinks s) (fileName (now env (sinks s))) = None \<longrightarrow>
        (\<exists>s'. fire env Sink s = Some s' \<and> exited s' = None \<and> pc_sink s' = SinkRange \<and>
              trace s' = trace s @
                [Create (fileName (now env (sinks s))) None,
                 Copy (fileName (now env (sinks s))) st (copyRes env (sinks s)),
                 Log (''wrote audio to '' @ fileName (now env (sinks s)))]))"
  by (auto simp: fire_def sinkStep_def Let_def written_def)

theorem sink_create_failure_is_fatal_witness:
  "exited (after opts0 envCreateFail schedFirstItem) = Some (Fatal ''permission denied'') \<and>
   exited (after opts0 envCopyFail schedFirstItem) = None \<and>
   pc_sink (after opts0 envCopyFail schedFirstItem) = SinkRange"
proof -
  let ?ws = "[RecvLoop, RecvLoop, RecvLoop, Bridge, Bridge]"
  let ?s = "after opts0 envCreateFail ?ws"
  let ?t = "after opts0 envCopyFail ?ws"
  have s: "pc_sink ?s = SinkItem 1 \<and> exited ?s = None"
    "createRes envCreateFail (sinks ?s) (fileName (now envCreateFail (sinks ?s))) =
       Some ''permission denied''"
    by (simp_all add: run_simps envCreateFail_def envCopyFail_def schedFirstItem_def)
  have t: "pc_sink ?t = SinkItem 1 \<and> exited ?t = None"
    "createRes envCopyFail (sinks ?t) (fileName (now envCopyFail (sinks ?t))) = None"
    by (simp_all add: run_simps envCreateFail_def envCopyFail_def schedFirstItem_def)
  have split: "after opts0 envCreateFail schedFirstItem = the (fire envCreateFail Sink ?s)"
    "after opts0 envCopyFail schedFirstItem = the (fire envCopyFail Sink ?t)"
    by (simp_all add: run_simps envCreateFail_def envCopyFail_def schedFirstItem_def)
  from sink_create_failure_is_fatal[of ?s 1 envCreateFail] s
  have "exited (the (fire envCreateFail Sink ?s)) = Some (Fatal ''permission denied'')"
    by auto
  moreover from sink_create_failure_is_fatal[of ?t 1 envCopyFail] t
  have "exited (the (fire envCopyFail Sink ?t)) = None \<and>
        pc_sink (the (fire envCopyFail Sink ?t)) = SinkRange"
    by auto
  ultimately show ?thesis using split by simp
qed

text \<open>
  Against C3 as stated: the first \<^verbatim>\<open>os.Create\<close> fails, and the process has ended; the
  second utterance of the backend is never received.
\<close>

theorem sink_create_failure_stops_pipeline:
  "run envCreateFail schedFirstItem (initial opts0 envCreateFail) \<noteq> None \<and>
   createRes envCreateFail 0 (fileName (now envCreateFail 0)) = Some ''permission denied'' \<and>
   exited (after opts0 envCreateFail schedFirstItem) = Some (Fatal ''permission denied'') \<and>
   pc_sink (after opts0 envCreateFail schedFirstItem) = SinkItem 1 \<and>
   recvs (after opts0 envCreateFail schedFirstItem) = 1 \<and>
   halted envCreateFail (after opts0 envCreateFail schedFirstItem)"
  by (simp add: run_simps halted_def envCreateFail_def schedFirstItem_def)

text \<open>
  C4, as the code has it. When \<^verbatim>\<open>cmd.Wait()\<close> returns an error, before or after the stop
  signal, the waiter calls \<^verbatim>\<open>log.Fatalf("wait: %v", err)\<close> (line 178): the error is
  logged and the process ends at once, so no other goroutine takes another step.
\<close>

theorem wait_error_is_fatal:
  "pc_wait s = WaitCall \<and> exited s = None \<and> waitRes env = Some m \<longrightarrow>
     (\<exists>s'. fire env Waiter s = Some s' \<and> exited s' = Some (Fatal (''wait: '' @ m)) \<and>
           trace s' = trace s @ [Wait] \<and> (\<forall>w. fire env w s' = None))"
  by (auto simp: fire_def waitStep_def)

theorem wait_error_is_fatal_witness:
  "Signal \<in> set (trace (after opts0 envWaitErr [StopListener, StopListener, StopListener])) \<and>
   exited (after opts0 envWaitErr schedStopThenWait) = Some (Fatal ''wait: signal: interrupt'')"
proof -
  let ?s = "after opts0 envWaitErr [StopListener, StopListener, StopListener]"
  have s: "pc_wait ?s = WaitCall \<and> exited ?s = None \<and> waitRes envWaitErr = Some ''signal: interrupt''"
    by (simp add: run_simps envWaitErr_def schedStopThenWait_def)
  have sig: "Signal \<in> set (trace ?s)"
    by (simp add: run_simps envWaitErr_def schedStopThenWait_def)
  have split: "after opts0 envWaitErr schedStopThenWait = the (fire envWaitErr Waiter ?s)"
    by (simp add: run_simps envWaitErr_def schedStopThenWait_def)
  from wait_error_is_fatal[of ?s envWaitErr "''signal: interrupt''"] s
  have "exited (the (fire envWaitErr Waiter ?s)) = Some (Fatal ''wait: signal: interrupt'')"
    by auto
  with sig split show ?thesis by simp
qed

text \<open>
  Against C4 as stated: the stop signal is sent, \<^verbatim>\<open>cmd.Wait()\<close> returns an error, and the
  process has ended with the send loop, the receive loop, the bridge and the sink still
  in their loops and both channels open.
\<close>

theorem wait_error_after_stop_aborts:
  "run envWaitErr schedStopThenWait (initial opts0 envWaitErr) \<noteq> None \<and>
   trace (after opts0 envWaitErr schedStopThenWait) =
     fst (startup opts0 envWaitErr) @ [Print ''Press 'Enter' to stop'', Signal, Wait] \<and>
   exited (after opts0 envWaitErr schedStopThenWait) = Some (Fatal ''wait: signal: interrupt'') \<and>
   pc_send (after opts0 envWaitErr schedStopThenWait) = SendRead \<and>
   pc_recv (after opts0 envWaitErr schedStopThenWait) = RecvCall \<and>
   pc_bridge (after opts0 envWaitErr schedStopThenWait) = BridgeRange \<and>
   pc_sink (after opts0 envWaitErr schedStopThenWait) = SinkRange \<and>
   \<not> texts_closed (after opts0 envWaitErr schedStopThenWait) \<and>
   \<not> streams_closed (after opts0 envWaitErr schedStopThenWait) \<and>
   halted envWaitErr (after opts0 envWaitErr schedStopThenWait)"
  by (simp add: run_simps halted_def envWaitErr_def schedStopThenWait_def)

text \<open>
  C6, as the code has it. In every state the program reaches, every configuration
  message in the trace carries the language flag, the encoding that the table has for
  the upper-cased codec flag, and the sample rate flag cut to 32 bits. There is exactly
  one such message once the start-up has got as far as line 73, and none in an execution
  that ended before (lines 52, 54, 59, 64 and 69 end the process first). Every audio chunk
  in the trace comes after the configuration message, sent with success; and if the send
  of the configuration message failed, the process has ended with \<^verbatim>\<open>log.Fatal\<close> of
  that error and no audio chunk was sent.
\<close>

theorem config_sent_once_before_audio:
  "reach opts env s \<Longrightarrow>
     length (filter isConfig (trace s)) = (if configReached opts env then 1 else 0) \<and>
     (\<forall>c r. SendConfig c r \<in> set (trace s) \<longrightarrow>
        r = sendConfig env \<and>
        (\<exists>enc. audioEncoding_value env (ToUpper env (codec opts)) = Some enc \<and>
           c = \<lparr>LanguageCode = language opts, Encoding = enc,
                 SampleRate = ucast (sampleRate opts)\<rparr>)) \<and>
     (\<forall>i<length (trace s). isAudio (trace s ! i) \<longrightarrow>
        (\<exists>j<i. \<exists>enc. audioEncoding_value env (ToUpper env (codec opts)) = Some enc \<and>
           trace s ! j =
             SendConfig \<lparr>LanguageCode = language opts, Encoding = enc,
                          SampleRate = ucast (sampleRate opts)\<rparr> None)) \<and>
     (\<forall>c e. SendConfig c (Some e) \<in> set (trace s) \<longrightarrow>
        exited s = Some (Fatal e) \<and> filter isAudio (trace s) = [])"
proof -
  assume r: "reach opts env s"
  then obtain post where tr: "trace s = fst (startup opts env) @ post"
    and post: "\<forall>e\<in>set post. \<not> isConfig e"
    and ok: "post \<noteq> [] \<longrightarrow> (\<exists>vid. snd (startup opts env) = Inr vid)"
    using reach_trace by blast
  let ?st = "fst (startup opts env)"
  have "filter isConfig post = []" using post by (simp add: filter_empty_conv)
  then have one: "length (filter isConfig (trace s)) = (if configReached opts env then 1 else 0)"
    by (simp add: tr startup_configs)
  have in_startup: "SendConfig c x \<in> set ?st" if "SendConfig c x \<in> set (trace s)" for c x
  proof -
    have "SendConfig c x \<notin> set post" using post by force
    with that show ?thesis by (simp add: tr)
  qed
  have payload: "x = sendConfig env \<and>
        (\<exists>enc. audioEncoding_value env (ToUpper env (codec opts)) = Some enc \<and>
           c = \<lparr>LanguageCode = language opts, Encoding = enc,
                 SampleRate = ucast (sampleRate opts)\<rparr>)"
    if "SendConfig c x \<in> set (trace s)" for c x
    using startup_config_payload[OF in_startup[OF that]]
    by (simp add: lookupCodec_def configOf_def)
  have before: "\<exists>j<i. \<exists>enc. audioEncoding_value env (ToUpper env (codec opts)) = Some enc \<and>
           trace s ! j =
             SendConfig \<lparr>LanguageCode = language opts, Encoding = enc,
                          SampleRate = ucast (sampleRate opts)\<rparr> None"
    if i: "i < length (trace s)" and a: "isAudio (trace s ! i)" for i
  proof -
    have "\<not> i < length ?st"
    proof
      assume "i < length ?st"
      then have "trace s ! i \<in> set ?st" by (simp add: tr nth_append)
      with a show False using startup_no_audio by blast
    qed
    then have ge: "length ?st \<le> i" by simp
    with i have "post \<noteq> []" by (auto simp: tr)
    with ok obtain vid where "snd (startup opts env) = Inr vid" by blast
    then obtain enc where enc: "lookupCodec env (codec opts) = Some enc"
      and st: "?st = [DescribeVoices (language opts), NewClient, StreamingRecognize,
          SendConfig (configOf opts enc) None, Log ''sent config. now listening on stdin'',
          StdoutPipe, CmdStart (sampleRate opts) (codec opts)]"
      using startup_ok_trace by blast
    have "3 < i" using ge by (simp add: st)
    moreover have "trace s ! 3 =
        SendConfig \<lparr>LanguageCode = language opts, Encoding = enc,
                     SampleRate = ucast (sampleRate opts)\<rparr> None"
      by (simp add: tr st configOf_def)
    moreover have "audioEncoding_value env (ToUpper env (codec opts)) = Some enc"
      using enc by (simp add: lookupCodec_def)
    ultimately show ?thesis by blast
  qed
  have failed: "exited s = Some (Fatal e) \<and> filter isAudio (trace s) = []"
    if c: "SendConfig c (Some e) \<in> set (trace s)" for c e
  proof -
    from c have "SendConfig c (Some e) \<in> set ?st" by (rule in_startup)
    then have f: "snd (startup opts env) = Inl (Fatal e)" by (rule startup_config_failed)
    then have ex: "exited (initial opts env) = Some (Fatal e)" by (simp add: initial_def)
    then have "exited (initial opts env) \<noteq> None" by simp
    with r have s: "s = initial opts env" by (rule reach_exited_initial)
    have "filter isAudio ?st = []" using startup_no_audio by (auto simp: filter_empty_conv)
    then show ?thesis using ex by (simp add: s initial_def)
  qed
  from one payload before failed show ?thesis by blast
qed

theorem config_sent_once_before_audio_witness:
  "isAudio (trace (after opts0 envOK schedSource) ! 10) \<and>
   trace (after opts0 envOK schedSource) ! 3 =
     SendConfig \<lparr>LanguageCode = ''sv-SE'', Encoding = 2, SampleRate = 16000\<rparr> None \<and>
   length (filter isConfig (trace (after opts0 envOK schedSource))) = 1 \<and>
   (\<exists>j<10. \<exists>enc. audioEncoding_value envOK (ToUpper envOK (codec opts0)) = Some enc \<and>
      trace (after opts0 envOK schedSource) ! j =
        SendConfig \<lparr>LanguageCode = language opts0, Encoding = enc,
                     SampleRate = ucast (sampleRate opts0)\<rparr> None) \<and>
   (\<exists>enc. audioEncoding_value envOK (ToUpper envOK (codec opts0)) = Some enc \<and>
      \<lparr>LanguageCode = ''sv-SE'', Encoding = 2, SampleRate = 16000\<rparr> =
        \<lparr>LanguageCode = language opts0, Encoding = enc, SampleRate = ucast (sampleRate opts0)\<rparr>) \<and>
   exited (initial opts0 envConfigFail) = Some (Fatal ''unavailable'')"
proof -
  let ?s = "after opts0 envOK schedSource"
  let ?c = "\<lparr>LanguageCode = ''sv-SE'', Encoding = 2, SampleRate = 16000\<rparr>"
  have "\<exists>s. run envOK schedSource (initial opts0 envOK) = Some s"
    by (simp add: run_simps schedSource_def)
  then have r: "reach opts0 envOK ?s" using run_after by blast
  have a: "10 < length (trace ?s)" "isAudio (trace ?s ! 10)" "configReached opts0 envOK"
    "trace ?s ! 3 = SendConfig ?c None" "SendConfig ?c None \<in> set (trace ?s)"
    by (simp_all add: run_simps schedSource_def configReached_def)
  have f: "SendConfig ?c (Some ''unavailable'') \<in> set (trace (initial opts0 envConfigFail))"
    by (simp add: run_simps envConfigFail_def)
  note t = config_sent_once_before_audio[OF r]
  from t a have "length (filter isConfig (trace ?s)) = 1" by simp
  moreover from t a(1,2)
  have "\<exists>j<10. \<exists>enc. audioEncoding_value envOK (ToUpper envOK (codec opts0)) = Some enc \<and>
      trace ?s ! j =
        SendConfig \<lparr>LanguageCode = language opts0, Encoding = enc,
                     SampleRate = ucast (sampleRate opts0)\<rparr> None"
    by blast
  moreover from t a(5)
  have "\<exists>enc. audioEncoding_value envOK (ToUpper envOK (codec opts0)) = Some enc \<and>
      ?c = \<lparr>LanguageCode = language opts0, Encoding = enc, SampleRate = ucast (sampleRate opts0)\<rparr>"
    by blast
  moreover from config_sent_once_before_audio[OF reach_initial, of opts0 envConfigFail] f
  have "exited (initial opts0 envConfigFail) = Some (Fatal ''unavailable'')"
    by blast
  ultimately show ?thesis using a by simp
qed

text \<open>
  Against C6 as stated: the voice lookup fails, the process ends on line 52, and the
  whole execution has sent no configuration message.
\<close>

theorem no_config_message_when_voice_lookup_fails:
  "describeVoices envVoicesErr (language opts0) = Inl ''AccessDenied'' \<and>
   trace (initial opts0 envVoicesErr) = [DescribeVoices ''sv-SE''] \<and>
   filter isConfig (trace (initial opts0 envVoicesErr)) = [] \<and>
   exited (initial opts0 envVoicesErr) = Some (Fatal ''Failed to get voices: AccessDenied'') \<and>
   halted envVoicesErr (initial opts0 envVoicesErr)"
  by (simp add: run_simps envVoicesErr_def halted_def)

text \<open>
  C7. In every state the program reaches: the transcripts put on \<^verbatim>\<open>texts\<close> are an
  initial part of what the backend has emitted, in its order; the texts given to
  \<^verbatim>\<open>say\<close> are an initial part of those, with at most one transcript taken and not yet
  given (the bridge handles one at a time); the texts synthesized are an initial part of
  the texts given; the streams put on \<^verbatim>\<open>streams\<close> are an initial part of the streams
  synthesized, with at most one not yet passed on; and the streams written to files are an
  initial part of the streams put on \<^verbatim>\<open>streams\<close>. So the files are written in the
  order in which the backend emitted their utterances.
\<close>

theorem order_preserved:
  "reach opts env s \<Longrightarrow>
     prefix (textsSent (trace s)) (backendTexts env (recvs s)) \<and>
     prefix (saidTexts (trace s)) (textsSent (trace s)) \<and>
     length (textsSent (trace s)) \<le> length (saidTexts (trace s)) + 1 \<and>
     prefix (map fst (synthesized (trace s))) (saidTexts (trace s)) \<and>
     prefix (streamsSent (trace s)) (map snd (synthesized (trace s))) \<and>
     length (synthesized (trace s)) \<le> length (streamsSent (trace s)) + 1 \<and>
     prefix (written (trace s)) (streamsSent (trace s))"
proof -
  assume "reach opts env s"
  then have inv: "orderInv env s" by (rule orderInv_reach)
  then have a: "textsSent (trace s) @ recvPending (pc_recv s) = backendTexts env (recvs s)"
    and b: "saidTexts (trace s) @ bridgeText (pc_bridge s) = textsSent (trace s)"
    and c: "prefix (map fst (synthesized (trace s))) (saidTexts (trace s))"
    and d: "streamsSent (trace s) @ bridgeStream (pc_bridge s) = map snd (synthesized (trace s))"
    and e: "written (trace s) @ sinkStream (pc_sink s) = streamsSent (trace s)"
    by (simp_all add: orderInv_def)
  have "length (bridgeText (pc_bridge s)) \<le> 1" by (cases "pc_bridge s") simp_all
  with b have b': "length (textsSent (trace s)) \<le> length (saidTexts (trace s)) + 1"
    by (metis add_le_cancel_left length_append)
  have "length (bridgeStream (pc_bridge s)) \<le> 1" by (cases "pc_bridge s") simp_all
  with d have d': "length (synthesized (trace s)) \<le> length (streamsSent (trace s)) + 1"
    by (metis add_le_cancel_left length_append length_map)
  from a b c d e b' d' show ?thesis
    by (auto intro: prefix_of_append_eq)
qed

theorem order_preserved_witness:
  "backendTexts envOK (recvs (after opts0 envOK schedComplete)) =
     [''turn on the lights'', ''what time is it''] \<and>
   synthesized (trace (after opts0 envOK schedComplete)) =
     [(''turn on the lights'', 1), (''what time is it'', 2)] \<and>
   written (trace (after opts0 envOK schedComplete)) = [1, 2] \<and>
   prefix (textsSent (trace (after opts0 envOK schedComplete)))
     (backendTexts envOK (recvs (after opts0 envOK schedComplete))) \<and>
   prefix (written (trace (after opts0 envOK schedComplete)))
     (streamsSent (trace (after opts0 envOK schedComplete)))"
proof -
  let ?s = "after opts0 envOK schedComplete"
  have "\<exists>s. run envOK schedComplete (initial opts0 envOK) = Some s"
    by (simp add: run_simps schedUtterance_def schedSource_def schedTwoWritten_def
        schedComplete_def synthesized_def written_def)
  then have r: "reach opts0 envOK ?s" using run_after by blast
  have ev: "recvs ?s = Suc (Suc (Suc 0))"
    "synthesized (trace ?s) = [(''turn on the lights'', 1), (''what time is it'', 2)]"
    "written (trace ?s) = [1, 2]"
    by (simp_all add: run_simps schedUtterance_def schedSource_def schedTwoWritten_def
        schedComplete_def synthesized_def written_def)
  have bt: "backendTexts envOK (Suc (Suc (Suc 0))) = [''turn on the lights'', ''what time is it'']"
    by (simp add: backendTexts_def respTexts_def env_defs)
  from order_preserved[OF r] ev bt show ?thesis by simp
qed

end
